theory Spec2Isabelle
  imports Main "HOL-Library.Sublist" "HOL-Library.AList"
begin

section \<open>Text and literal replacement\<close>

text \<open>
  The script \<^verbatim>\<open>rename_nebula_to_termsnap.py\<close> reads each file as UTF-8 text and
  rewrites it with \<^verbatim>\<open>str.replace\<close>. A text is modelled as a \<open>string\<close>: the
  sequence of the UTF-8 bytes of the decoded content. Every search literal of the
  script is plain ASCII and no byte of a multi-byte UTF-8 sequence is an ASCII byte,
  so replacing on the bytes is replacing on the code points.

  \<^verbatim>\<open>content.replace(old, new)\<close> scans from the left, replaces each occurrence
  of \<open>old\<close> it meets and resumes right after that occurrence, so the occurrences
  replaced do not overlap. With an empty \<open>old\<close> it puts \<open>new\<close> before
  every character and at the end.
\<close>

function replace_nonempty :: "string \<Rightarrow> string \<Rightarrow> string \<Rightarrow> string" where
  "replace_nonempty old new [] = []"
| "replace_nonempty old new (c # cs) =
     (if old \<noteq> [] \<and> prefix old (c # cs)
      then new @ replace_nonempty old new (drop (length old) (c # cs))
      else c # replace_nonempty old new cs)"
  by pat_completeness auto
termination
  by (relation "measure (\<lambda>(old, new, s). length s)") auto

definition str_replace :: "string \<Rightarrow> string \<Rightarrow> string \<Rightarrow> string" where
  "str_replace old new s =
     (if old = [] then new @ concat (map (\<lambda>c. c # new) s)
      else replace_nonempty old new s)"

type_synonym rule = "string \<times> string"

text \<open>The loop \<^verbatim>\<open>for old, new in replacements: content = content.replace(old, new)\<close>.\<close>

fun apply_replacements :: "rule list \<Rightarrow> string \<Rightarrow> string" where
  "apply_replacements [] content = content"
| "apply_replacements ((old, new) # rest) content =
     apply_replacements rest (str_replace old new content)"

text \<open>The rule list of \<^verbatim>\<open>main\<close>, in the order of the source.\<close>

definition replacements :: "rule list" where
  \<open>replacements =
    [(''namespace Nebula'', ''namespace TermSnap''),
     (''using Nebula'', ''using TermSnap''),
     (''xmlns:local="clr-namespace:Nebula'', ''xmlns:local="clr-namespace:TermSnap''),
     (''pack://application:,,,/Nebula;component'', ''pack://application:,,,/TermSnap;component''),
     (''"Nebula Terminal"'', ''"TermSnap"''),
     ([CHR 0x27] @ ''Nebula Terminal'' @ [CHR 0x27], [CHR 0x27] @ ''TermSnap'' @ [CHR 0x27]),
     (''"Nebula"'', ''"TermSnap"''),
     ([CHR 0x27] @ ''Nebula'' @ [CHR 0x27], [CHR 0x27] @ ''TermSnap'' @ [CHR 0x27]),
     (''Nebula_MCP'', ''TermSnap_MCP''),
     (''Nebula.'', ''TermSnap.''),
     ([CHR 0x5C] @ ''Nebula'' @ [CHR 0x5C], [CHR 0x5C] @ ''TermSnap'' @ [CHR 0x5C]),
     (''/Nebula/'', ''/TermSnap/''),
     (''# Nebula'', ''# TermSnap''),
     (''// Nebula'', ''// TermSnap'')]\<close>


section \<open>Files, standard output and exceptions\<close>

text \<open>
  The exceptions the file operations of the script can raise, each with the text
  \<^verbatim>\<open>str(e)\<close> gives. All are subclasses of \<^verbatim>\<open>Exception\<close>, which is what
  \<^verbatim>\<open>except Exception as e\<close> catches.
\<close>

datatype py_exception =
    FileNotFoundError string
  | PermissionError string
  | IsADirectoryError string
  | UnicodeDecodeError string
  | OSError string
  | ValueError string

fun exc_str :: "py_exception \<Rightarrow> string" where
  "exc_str (FileNotFoundError m) = m"
| "exc_str (PermissionError m) = m"
| "exc_str (IsADirectoryError m) = m"
| "exc_str (UnicodeDecodeError m) = m"
| "exc_str (OSError m) = m"
| "exc_str (ValueError m) = m"

text \<open>
  A path is the list of its components from the filesystem root; \<open>str_path\<close> is
  \<^verbatim>\<open>str(path)\<close> of an absolute POSIX path and \<open>str_rel\<close> that of a relative one.
\<close>

type_synonym path = "string list"

definition str_path :: "path \<Rightarrow> string" where
  "str_path p = (if p = [] then ''/'' else concat (map (\<lambda>c. CHR ''/'' # c) p))"

fun str_rel :: "path \<Rightarrow> string" where
  "str_rel [] = ''.''"
| "str_rel [c] = c"
| "str_rel (c # d # cs) = c @ ''/'' @ str_rel (d # cs)"

text \<open>
  What the script can observe of a file: \<open>file_text\<close> is what
  \<^verbatim>\<open>open(p, 'r', encoding='utf-8')\<close> followed by \<^verbatim>\<open>f.read()\<close> gives, the decoded
  text or the exception raised (a directory, a file without read permission, bytes
  that are not UTF-8); \<open>file_wfault\<close>, when present, is the exception that
  \<^verbatim>\<open>open(p, 'w', encoding='utf-8')\<close> or \<^verbatim>\<open>f.write\<close> raises, with what is then left
  on disk (the old state when the open is refused, a truncated file when the write
  breaks off).
\<close>

datatype disk_file =
  File (file_text: "py_exception + string")
       (file_wfault: "(py_exception \<times> (py_exception + string)) option")

datatype io_event = OpenRead path | OpenWrite path

text \<open>
  The world the script runs in: the files in traversal order, the texts given to
  \<^verbatim>\<open>print\<close> so far (one entry for each call) and the files opened so far.
\<close>

record world =
  files :: "(path \<times> disk_file) list"
  stdout :: "string list"
  io_trace :: "io_event list"

definition print :: "string \<Rightarrow> world \<Rightarrow> world" where
  "print line w = w\<lparr>stdout := stdout w @ [line]\<rparr>"

definition read_text :: "path \<Rightarrow> world \<Rightarrow> (py_exception + string) \<times> world" where
  "read_text p w =
     ((case map_of (files w) p of
         None \<Rightarrow> Inl (FileNotFoundError
                   (''[Errno 2] No such file or directory: '' @ [CHR 0x27] @ str_path p @ [CHR 0x27]))
       | Some f \<Rightarrow> file_text f),
      w\<lparr>io_trace := io_trace w @ [OpenRead p]\<rparr>)"

definition write_text :: "path \<Rightarrow> string \<Rightarrow> world \<Rightarrow> (py_exception + unit) \<times> world" where
  "write_text p t w =
     (let w1 = w\<lparr>io_trace := io_trace w @ [OpenWrite p]\<rparr>
      in case map_of (files w) p of
           None \<Rightarrow> (Inr (), w1\<lparr>files := AList.update p (File (Inr t) None) (files w)\<rparr>)
         | Some f \<Rightarrow>
             (case file_wfault f of
                Some (e, residue) \<Rightarrow>
                  (Inl e, w1\<lparr>files := AList.update p (File residue (file_wfault f)) (files w)\<rparr>)
              | None \<Rightarrow>
                  (Inr (), w1\<lparr>files := AList.update p (File (Inr t) None) (files w)\<rparr>)))"

section \<open>replace_in_file\<close>

text \<open>The body of the \<^verbatim>\<open>try\<close> block: its value or the exception it raises.\<close>

definition replace_in_file_try ::
  "path \<Rightarrow> rule list \<Rightarrow> world \<Rightarrow> (py_exception + bool) \<times> world" where
  "replace_in_file_try file_path rs w =
     (case read_text file_path w of
        (Inl e, w1) \<Rightarrow> (Inl e, w1)
      | (Inr content, w1) \<Rightarrow>
          (let original_content = content;
               content' = apply_replacements rs content
           in if content' \<noteq> original_content
              then (case write_text file_path content' w1 of
                      (Inl e, w2) \<Rightarrow> (Inl e, w2)
                    | (Inr u, w2) \<Rightarrow> (Inr True, w2))
              else (Inr False, w1)))"

text \<open>The whole function: \<^verbatim>\<open>except Exception as e\<close> prints and returns \<^verbatim>\<open>False\<close>.\<close>

definition replace_in_file :: "path \<Rightarrow> rule list \<Rightarrow> world \<Rightarrow> bool \<times> world" where
  "replace_in_file file_path rs w =
     (case replace_in_file_try file_path rs w of
        (Inl e, w1) \<Rightarrow>
          (False, print (''Error processing '' @ str_path file_path @ '': '' @ exc_str e) w1)
      | (Inr changed, w1) \<Rightarrow> (changed, w1))"

section \<open>Discovery of files\<close>

text \<open>
  Matching of a file name against a glob pattern, case-sensitive as on POSIX:
  \<open>*\<close> stands for any run of characters (also none), \<open>?\<close> for one character,
  any other character of the pattern for itself. The patterns of the script have no
  bracket expression, which is left out.
\<close>

fun glob_match :: "string \<Rightarrow> string \<Rightarrow> bool" where
  "glob_match [] [] = True"
| "glob_match [] (c # cs) = False"
| "glob_match (p # ps) [] = (p = CHR ''*'' \<and> glob_match ps [])"
| "glob_match (p # ps) (c # cs) =
     (if p = CHR ''*'' then glob_match ps (c # cs) \<or> glob_match (p # ps) cs
      else (p = CHR ''?'' \<or> p = c) \<and> glob_match ps cs)"

text \<open>
  \<^verbatim>\<open>directory.rglob(pattern)\<close> for a pattern without a separator: every path
  below \<open>directory\<close>, at any depth, whose last component matches the pattern, in
  traversal order.
\<close>

definition rglob :: "path \<Rightarrow> string \<Rightarrow> world \<Rightarrow> path list" where
  "rglob directory pattern w =
     filter (\<lambda>p. strict_prefix directory p \<and> glob_match pattern (last p)) (map fst (files w))"

text \<open>\<^verbatim>\<open>path.relative_to(other)\<close> raises \<^verbatim>\<open>ValueError\<close> unless \<open>other\<close> is an ancestor.\<close>

definition relative_to :: "path \<Rightarrow> path \<Rightarrow> py_exception + path" where
  "relative_to p other =
     (if prefix other p then Inr (drop (length other) p)
      else Inl (ValueError ([CHR 0x27] @ str_path p @ [CHR 0x27] @ '' is not in the subpath of ''
                            @ [CHR 0x27] @ str_path other @ [CHR 0x27])))"

text \<open>How an f-string renders a non-negative \<^verbatim>\<open>int\<close>: its decimal digits.\<close>

definition digit_char :: "nat \<Rightarrow> char" where
  "digit_char d = char_of (of_char CHR ''0'' + d)"

function decimal :: "nat \<Rightarrow> string" where
  "decimal n = (if 10 \<le> n then decimal (n div 10) @ [digit_char (n mod 10)] else [digit_char n])"
  by pat_completeness auto
termination
  by (relation "measure (\<lambda>n. n)") auto

declare decimal.simps [simp del]

section \<open>main\<close>

text \<open>
  Each of the three loops of \<^verbatim>\<open>main\<close> has the same body; \<open>process_files\<close> is
  that loop, with the counter of changed files as accumulator. \<open>root_dir\<close> is
  \<^verbatim>\<open>ROOT_DIR\<close>, the directory of the script.
\<close>

fun process_files ::
  "path \<Rightarrow> path list \<Rightarrow> rule list \<Rightarrow> nat \<Rightarrow> world \<Rightarrow> (py_exception + nat) \<times> world" where
  "process_files root_dir [] rs changed w = (Inr changed, w)"
| "process_files root_dir (f # fs) rs changed w =
     (case replace_in_file f rs w of
        (True, w1) \<Rightarrow>
          (case relative_to f root_dir of
             Inl e \<Rightarrow> (Inl e, w1)
           | Inr rel \<Rightarrow>
               process_files root_dir fs rs (changed + 1) (print (''  [OK] '' @ str_rel rel) w1))
      | (False, w1) \<Rightarrow> process_files root_dir fs rs changed w1)"

definition summary :: "nat \<Rightarrow> nat \<Rightarrow> nat \<Rightarrow> nat \<Rightarrow> nat \<Rightarrow> nat \<Rightarrow> string list" where
  "summary cs_changed cs_total xaml_changed xaml_total other_changed other_total =
     [CHR 0x0A # replicate 60 CHR ''='',
      ''[DONE] Nebula -> TermSnap conversion complete!'',
      replicate 60 CHR ''='',
      ''   C# files changed: '' @ decimal cs_changed @ ''/'' @ decimal cs_total,
      ''   XAML files changed: '' @ decimal xaml_changed @ ''/'' @ decimal xaml_total,
      ''   Other files changed: '' @ decimal other_changed @ ''/'' @ decimal other_total,
      ''   Total: '' @ decimal (cs_changed + xaml_changed + other_changed) @ '' files'']"

definition print_all :: "string list \<Rightarrow> world \<Rightarrow> world" where
  "print_all ls w = foldl (\<lambda>w l. print l w) w ls"

definition main :: "path \<Rightarrow> world \<Rightarrow> (py_exception + unit) \<times> world" where
  "main root_dir w =
     (let src_dir = root_dir @ [''src''];
          cs_files = rglob src_dir ''*.cs'' w;
          w1 = print (''Processing '' @ decimal (length cs_files) @ '' C# files...'') w
      in case process_files root_dir cs_files replacements 0 w1 of
           (Inl e, w2) \<Rightarrow> (Inl e, w2)
         | (Inr cs_changed, w2) \<Rightarrow>
       (let xaml_files = rglob src_dir ''*.xaml'' w2;
            w3 = print (CHR 0x0A # ''Processing '' @ decimal (length xaml_files)
                        @ '' XAML files...'') w2
        in case process_files root_dir xaml_files replacements 0 w3 of
             (Inl e, w4) \<Rightarrow> (Inl e, w4)
           | (Inr xaml_changed, w4) \<Rightarrow>
         (let other_files =
                concat (map (\<lambda>pattern. rglob root_dir pattern w4)
                            [''*.json'', ''*.config'', ''*.xml'', ''*.md'']);
              w5 = print (CHR 0x0A # ''Processing '' @ decimal (length other_files)
                          @ '' other files...'') w4
          in case process_files root_dir other_files replacements 0 w5 of
               (Inl e, w6) \<Rightarrow> (Inl e, w6)
             | (Inr other_changed, w6) \<Rightarrow>
                 (Inr (),
                  print_all (summary cs_changed (length cs_files)
                                     xaml_changed (length xaml_files)
                                     other_changed (length other_files)) w6))))"

text \<open>
  The values \<^verbatim>\<open>replace_in_file\<close> returns for the files of one loop, in the order
  of the calls, each call starting in the world the loop has reached.
\<close>

fun outcomes :: "path \<Rightarrow> path list \<Rightarrow> rule list \<Rightarrow> world \<Rightarrow> bool list" where
  "outcomes root_dir [] rs w = []"
| "outcomes root_dir (f # fs) rs w =
     (case replace_in_file f rs w of
        (changed, w1) \<Rightarrow>
          changed # outcomes root_dir fs rs
            (if changed then print (''  [OK] '' @ str_rel (drop (length root_dir) f)) w1 else w1))"



section \<open>A project tree for the examples\<close>

text \<open>
  A small project with one file of each kind the specification names in its examples:
  a documentation file and a text file with the same comment, a source file that
  is rewritten, one whose bytes are not UTF-8, one without any search literal, and a
  markup file that cannot be opened for writing.
\<close>

definition example_root :: path where
  "example_root = [''proj'']"

definition example_world :: world where
  "example_world =
     \<lparr>files =
        [([''proj'', ''readme.md''], File (Inr ''// Nebula'') None),
         ([''proj'', ''notes.txt''], File (Inr ''// Nebula'') None),
         ([''proj'', ''src'', ''a.cs''], File (Inr ''namespace Nebula.Core { }'') None),
         ([''proj'', ''src'', ''b.cs''],
            File (Inl (UnicodeDecodeError ''invalid start byte'')) None),
         ([''proj'', ''src'', ''c.cs''], File (Inr ''using System;'') None),
         ([''proj'', ''src'', ''ui'', ''m.xaml''],
            File (Inr ''clr-namespace:Nebula.Views'')
                 (Some (PermissionError ''[Errno 13] Permission denied'',
                        Inr ''clr-namespace:Nebula.Views'')))],
      stdout = [],
      io_trace = []\<rparr>"

section \<open>Properties of literal replacement\<close>

text \<open>A text without any occurrence of the search literal is returned as it is.\<close>

lemma replace_nonempty_absent:
  "\<not> sublist old s \<Longrightarrow> replace_nonempty old new s = s"
proof (induction s)
  case Nil
  show ?case by simp
next
  case (Cons c cs)
  from Cons.prems have np: "\<not> prefix old (c # cs)" and ns: "\<not> sublist old cs"
    by (auto simp: sublist_Cons_right)
  from ns have "replace_nonempty old new cs = cs" by (rule Cons.IH)
  with np show ?case by simp
qed

lemma str_replace_absent:
  "\<not> sublist old s \<Longrightarrow> str_replace old new s = s"
proof -
  assume a: "\<not> sublist old s"
  then have "old \<noteq> []" by auto
  with a show ?thesis by (simp add: str_replace_def replace_nonempty_absent)
qed

lemma apply_replacements_absent:
  "\<forall>r\<in>set rs. \<not> sublist (fst r) s \<Longrightarrow> apply_replacements rs s = s"
  by (induction rs s rule: apply_replacements.induct) (simp_all add: str_replace_absent)

lemma apply_replacements_foldl:
  "apply_replacements rs s = foldl (\<lambda>acc r. str_replace (fst r) (snd r) acc) s rs"
  by (induction rs s rule: apply_replacements.induct) simp_all

lemma replace_nonempty_at_match:
  "old \<noteq> [] \<Longrightarrow> replace_nonempty old new (old @ v) = new @ replace_nonempty old new v"
  by (cases old) simp_all

lemma replace_nonempty_leftmost:
  "old \<noteq> [] \<Longrightarrow> \<not> sublist old (u @ butlast old) \<Longrightarrow>
   replace_nonempty old new (u @ old @ v) = u @ new @ replace_nonempty old new v"
proof (induction u)
  case Nil
  then show ?case by (simp add: replace_nonempty_at_match)
next
  case (Cons a u)
  have len: "length old \<le> length ((a # u) @ butlast old)" by simp
  have "\<not> prefix old ((a # u) @ old @ v)"
  proof
    assume p: "prefix old ((a # u) @ old @ v)"
    have q: "prefix ((a # u) @ butlast old) ((a # u) @ old @ v)"
      using Cons.prems(1) by (simp add: prefixI[of "old @ v" "butlast old" "last old # v"])
    from p q len have "prefix old ((a # u) @ butlast old)"
      by (rule prefix_length_prefix)
    then have "sublist old ((a # u) @ butlast old)" by (rule prefix_imp_sublist)
    with Cons.prems(2) show False by simp
  qed
  moreover have "\<not> sublist old (u @ butlast old)"
    using Cons.prems(2) by (auto simp: sublist_Cons_right)
  ultimately show ?case using Cons.IH Cons.prems(1) by simp
qed

text \<open>
  The first occurrence from the left is replaced and the scan resumes after it: with
  the lemma above this determines \<open>str_replace\<close> for every non-empty search literal.
\<close>

lemma str_replace_leftmost:
  "old \<noteq> [] \<Longrightarrow> \<not> sublist old (u @ butlast old) \<Longrightarrow>
   str_replace old new (u @ old @ v) = u @ new @ str_replace old new v"
  by (simp add: str_replace_def replace_nonempty_leftmost)









section \<open>Properties of \<open>replace_in_file\<close>\<close>

lemma files_print [simp]: "files (print l w) = files w"
  and stdout_print [simp]: "stdout (print l w) = stdout w @ [l]"
  and io_trace_print [simp]: "io_trace (print l w) = io_trace w"
  by (simp_all add: print_def)

text \<open>What \<open>replace_in_file\<close> does, by the state of the file it is given.\<close>

lemma replace_in_file_missing:
  "map_of (files w) p = None \<Longrightarrow>
   replace_in_file p rs w =
     (False, w\<lparr>stdout := stdout w @ [''Error processing '' @ str_path p @ '': '' @
                  ''[Errno 2] No such file or directory: '' @ [CHR 0x27] @ str_path p @ [CHR 0x27]],
               io_trace := io_trace w @ [OpenRead p]\<rparr>)"
  by (simp add: replace_in_file_def replace_in_file_try_def read_text_def print_def)

lemma replace_in_file_unreadable:
  "map_of (files w) p = Some f \<Longrightarrow> file_text f = Inl e \<Longrightarrow>
   replace_in_file p rs w =
     (False, w\<lparr>stdout := stdout w @ [''Error processing '' @ str_path p @ '': '' @ exc_str e],
               io_trace := io_trace w @ [OpenRead p]\<rparr>)"
  by (simp add: replace_in_file_def replace_in_file_try_def read_text_def print_def)

lemma replace_in_file_same:
  "map_of (files w) p = Some f \<Longrightarrow> file_text f = Inr c \<Longrightarrow> apply_replacements rs c = c \<Longrightarrow>
   replace_in_file p rs w = (False, w\<lparr>io_trace := io_trace w @ [OpenRead p]\<rparr>)"
  by (simp add: replace_in_file_def replace_in_file_try_def read_text_def)

lemma replace_in_file_written:
  "map_of (files w) p = Some f \<Longrightarrow> file_text f = Inr c \<Longrightarrow> apply_replacements rs c \<noteq> c \<Longrightarrow>
   file_wfault f = None \<Longrightarrow>
   replace_in_file p rs w =
     (True, w\<lparr>files := AList.update p (File (Inr (apply_replacements rs c)) None) (files w),
              io_trace := io_trace w @ [OpenRead p, OpenWrite p]\<rparr>)"
  by (simp add: replace_in_file_def replace_in_file_try_def read_text_def write_text_def)

lemma replace_in_file_write_error:
  "map_of (files w) p = Some f \<Longrightarrow> file_text f = Inr c \<Longrightarrow> apply_replacements rs c \<noteq> c \<Longrightarrow>
   file_wfault f = Some (e, residue) \<Longrightarrow>
   replace_in_file p rs w =
     (False, w\<lparr>files := AList.update p (File residue (Some (e, residue))) (files w),
               stdout := stdout w @ [''Error processing '' @ str_path p @ '': '' @ exc_str e],
               io_trace := io_trace w @ [OpenRead p, OpenWrite p]\<rparr>)"
  by (simp add: replace_in_file_def replace_in_file_try_def read_text_def write_text_def print_def)

lemmas replace_in_file_cases =
  replace_in_file_missing replace_in_file_unreadable replace_in_file_same
  replace_in_file_written replace_in_file_write_error

lemma file_state_cases [case_names missing unreadable same written write_error]:
  fixes w :: world
  obtains
    "map_of (files w) p = None"
  | f e where "map_of (files w) p = Some f" "file_text f = Inl e"
  | f c where "map_of (files w) p = Some f" "file_text f = Inr c" "apply_replacements rs c = c"
  | f c where "map_of (files w) p = Some f" "file_text f = Inr c" "apply_replacements rs c \<noteq> c"
      "file_wfault f = None"
  | f c e residue where "map_of (files w) p = Some f" "file_text f = Inr c"
      "apply_replacements rs c \<noteq> c" "file_wfault f = Some (e, residue)"
proof (cases "map_of (files w) p")
  case None
  then show ?thesis by (rule that(1))
next
  case (Some f)
  show ?thesis
  proof (cases "file_text f")
    case (Inl e)
    with Some show ?thesis by (rule that(2))
  next
    case (Inr c)
    show ?thesis
    proof (cases "apply_replacements rs c = c")
      case True
      with Some Inr show ?thesis by (rule that(3))
    next
      case False
      show ?thesis
      proof (cases "file_wfault f")
        case None
        with Some Inr False show ?thesis by (rule that(4))
      next
        case (Some a)
        then obtain e residue where "file_wfault f = Some (e, residue)" by (cases a) simp
        with \<open>map_of (files w) p = Some f\<close> Inr False show ?thesis by (rule that(5))
      qed
    qed
  qed
qed

lemma replace_in_file_other_files:
  "q \<noteq> p \<Longrightarrow> map_of (files (snd (replace_in_file p rs w))) q = map_of (files w) q"
  by (cases rule: file_state_cases[where w=w and p=p and rs=rs]) (simp_all add: replace_in_file_cases update_conv')

lemma replace_in_file_keys:
  "map fst (files (snd (replace_in_file p rs w))) = map fst (files w)"
proof -
  have k: "map_of (files w) p = Some f \<Longrightarrow> p \<in> fst ` set (files w)" for f
    by (metis map_of_eq_None_iff option.distinct(1))
  show ?thesis
    by (cases rule: file_state_cases[where w=w and p=p and rs=rs]) (simp_all add: replace_in_file_cases update_keys k)
qed



lemma replace_in_file_local:
  assumes "map_of (files w1) p1 = map_of (files w2) p2"
  shows "fst (replace_in_file p1 rs w1) = fst (replace_in_file p2 rs w2) \<and>
         map_of (files (snd (replace_in_file p1 rs w1))) p1
           = map_of (files (snd (replace_in_file p2 rs w2))) p2"
proof (cases rule: file_state_cases[where w=w1 and p=p1 and rs=rs])
  case missing
  with assms have "map_of (files w2) p2 = None" by simp
  with missing show ?thesis by (simp add: replace_in_file_missing)
next
  case (unreadable f e)
  with assms have "map_of (files w2) p2 = Some f" by simp
  with unreadable show ?thesis by (simp add: replace_in_file_unreadable)
next
  case (same f c)
  with assms have "map_of (files w2) p2 = Some f" by simp
  with same show ?thesis by (simp add: replace_in_file_same)
next
  case (written f c)
  with assms have "map_of (files w2) p2 = Some f" by simp
  with written show ?thesis by (simp add: replace_in_file_written update_conv')
next
  case (write_error f c e residue)
  with assms have "map_of (files w2) p2 = Some f" by simp
  with write_error show ?thesis by (simp add: replace_in_file_write_error update_conv')
qed

section \<open>Properties of the loop over the files\<close>


lemma process_files_keys:
  "map fst (files (snd (process_files root ps rs n w))) = map fst (files w)"
proof (induction ps arbitrary: n w)
  case Nil
  show ?case by simp
next
  case (Cons p ps)
  obtain b w1 where r: "replace_in_file p rs w = (b, w1)" by (cases "replace_in_file p rs w")
  have w1: "map fst (files w1) = map fst (files w)"
    using replace_in_file_keys[of p rs w] r by simp
  show ?case using r w1 Cons.IH
    by (cases b; cases "relative_to p root") simp_all
qed



text \<open>No exception leaves the loop when every file lies below the root directory.\<close>

lemma process_files_count:
  "\<forall>p\<in>set ps. prefix root p \<Longrightarrow>
   fst (process_files root ps rs n w) = Inr (n + length (filter (\<lambda>b. b) (outcomes root ps rs w)))"
proof (induction ps arbitrary: n w)
  case Nil
  show ?case by simp
next
  case (Cons p ps)
  obtain b w1 where r: "replace_in_file p rs w = (b, w1)" by (cases "replace_in_file p rs w")
  from Cons.prems have rel: "relative_to p root = Inr (drop (length root) p)"
    and rest: "\<forall>p\<in>set ps. prefix root p"
    by (simp_all add: relative_to_def)
  show ?case using r rel Cons.IH[OF rest] by (cases b) simp_all
qed



lemma outcomes_step:
  "outcomes root (p # ps) rs w =
     fst (replace_in_file p rs w) # outcomes root ps rs
       (if fst (replace_in_file p rs w)
        then print (''  [OK] '' @ str_rel (drop (length root) p)) (snd (replace_in_file p rs w))
        else snd (replace_in_file p rs w))"
  by (cases "replace_in_file p rs w") simp

text \<open>With each file listed once, a file gets in the loop what it gets alone.\<close>

lemma outcomes_initial:
  "distinct ps \<Longrightarrow> outcomes root ps rs w = map (\<lambda>p. fst (replace_in_file p rs w)) ps"
proof (induction ps arbitrary: w)
  case Nil
  show ?case by simp
next
  case (Cons p ps)
  define w1 where "w1 = (if fst (replace_in_file p rs w)
        then print (''  [OK] '' @ str_rel (drop (length root) p)) (snd (replace_in_file p rs w))
        else snd (replace_in_file p rs w))"
  have same: "fst (replace_in_file q rs w1) = fst (replace_in_file q rs w)" if "q \<in> set ps" for q
  proof -
    from that Cons.prems have "q \<noteq> p" by auto
    then have "map_of (files w1) q = map_of (files w) q"
      by (simp add: w1_def replace_in_file_other_files)
    then show ?thesis using replace_in_file_local by blast
  qed
  from Cons.prems have "distinct ps" by simp
  then have "outcomes root ps rs w1 = map (\<lambda>p. fst (replace_in_file p rs w1)) ps"
    by (rule Cons.IH)
  also have "\<dots> = map (\<lambda>p. fst (replace_in_file p rs w)) ps"
    using same by simp
  finally show ?case by (simp only: outcomes_step w1_def list.map)
qed




section \<open>Properties of the discovery\<close>



lemma rglob_keys:
  "map fst (files w1) = map fst (files w2) \<Longrightarrow> rglob d pat w1 = rglob d pat w2"
  by (simp add: rglob_def)

lemma rglob_print [simp]: "rglob d pat (print l w) = rglob d pat w"
  by (simp add: rglob_def)

lemma rglob_process_files [simp]:
  "rglob d pat (snd (process_files root ps rs n w)) = rglob d pat w"
  by (rule rglob_keys) (rule process_files_keys)

lemma rglob_below: "p \<in> set (rglob d pat w) \<Longrightarrow> strict_prefix d p"
  by (simp add: rglob_def)

lemma rglob_below_root: "p \<in> set (rglob (root @ sub) pat w) \<Longrightarrow> prefix root p"
  by (auto dest!: rglob_below simp: strict_prefix_def prefix_def)


lemma stdout_print_all [simp]: "stdout (print_all ls w) = stdout w @ ls"
proof -
  have "stdout (foldl (\<lambda>w l. print l w) w ls) = stdout w @ ls" for w
    by (induction ls arbitrary: w) simp_all
  then show ?thesis by (simp add: print_all_def)
qed

lemma files_print_all [simp]: "files (print_all ls w) = files w"
proof -
  have "files (foldl (\<lambda>w l. print l w) w ls) = files w" for w
    by (induction ls arbitrary: w) simp_all
  then show ?thesis by (simp add: print_all_def)
qed

lemma io_trace_print_all [simp]: "io_trace (print_all ls w) = io_trace w"
proof -
  have "io_trace (foldl (\<lambda>w l. print l w) w ls) = io_trace w" for w
    by (induction ls arbitrary: w) simp_all
  then show ?thesis by (simp add: print_all_def)
qed

lemma process_files_result:
  "\<forall>p\<in>set ps. prefix root p \<Longrightarrow>
   process_files root ps rs n w =
     (Inr (n + length (filter (\<lambda>b. b) (outcomes root ps rs w))),
      snd (process_files root ps rs n w))"
  using process_files_count[of ps root rs n w] by (simp add: prod_eq_iff)

section \<open>Properties of \<open>main\<close>\<close>

text \<open>The run of \<open>main\<close>, pass by pass: no exception leaves it.\<close>

lemma main_run:
  fixes root_dir :: path and w :: world
  shows
  "main root_dir w =
    (let src_dir = root_dir @ [''src''];
         cs_files = rglob src_dir ''*.cs'' w;
         w1 = print (''Processing '' @ decimal (length cs_files) @ '' C# files...'') w;
         w2 = snd (process_files root_dir cs_files replacements 0 w1);
         xaml_files = rglob src_dir ''*.xaml'' w;
         w3 = print (CHR 0x0A # ''Processing '' @ decimal (length xaml_files)
                     @ '' XAML files...'') w2;
         w4 = snd (process_files root_dir xaml_files replacements 0 w3);
         other_files = concat (map (\<lambda>pattern. rglob root_dir pattern w)
                                   [''*.json'', ''*.config'', ''*.xml'', ''*.md'']);
         w5 = print (CHR 0x0A # ''Processing '' @ decimal (length other_files)
                     @ '' other files...'') w4;
         w6 = snd (process_files root_dir other_files replacements 0 w5)
     in (Inr (),
         print_all (summary
           (length (filter (\<lambda>b. b) (outcomes root_dir cs_files replacements w1)))
           (length cs_files)
           (length (filter (\<lambda>b. b) (outcomes root_dir xaml_files replacements w3)))
           (length xaml_files)
           (length (filter (\<lambda>b. b) (outcomes root_dir other_files replacements w5)))
           (length other_files)) w6))"
proof -
  define src_dir where "src_dir = root_dir @ [''src'']"
  define cs_files where "cs_files = rglob src_dir ''*.cs'' w"
  define w1 where "w1 = print (''Processing '' @ decimal (length cs_files) @ '' C# files...'') w"
  define w2 where "w2 = snd (process_files root_dir cs_files replacements 0 w1)"
  define xaml_files where "xaml_files = rglob src_dir ''*.xaml'' w"
  define w3 where "w3 = print (CHR 0x0A # ''Processing '' @ decimal (length xaml_files)
                     @ '' XAML files...'') w2"
  define w4 where "w4 = snd (process_files root_dir xaml_files replacements 0 w3)"
  define other_files where "other_files = concat (map (\<lambda>pattern. rglob root_dir pattern w)
                                   [''*.json'', ''*.config'', ''*.xml'', ''*.md''])"
  define w5 where "w5 = print (CHR 0x0A # ''Processing '' @ decimal (length other_files)
                     @ '' other files...'') w4"
  define w6 where "w6 = snd (process_files root_dir other_files replacements 0 w5)"
  have cs: "\<forall>p\<in>set cs_files. prefix root_dir p"
    by (auto simp: cs_files_def src_dir_def dest: rglob_below_root)
  have xaml: "\<forall>p\<in>set xaml_files. prefix root_dir p"
    by (auto simp: xaml_files_def src_dir_def dest: rglob_below_root)
  have other: "\<forall>p\<in>set other_files. prefix root_dir p"
    using rglob_below_root[of _ root_dir "[]"] by (auto simp: other_files_def)
  have p1: "process_files root_dir cs_files replacements 0 w1 =
              (Inr (length (filter (\<lambda>b. b) (outcomes root_dir cs_files replacements w1))), w2)"
    using process_files_result[OF cs, of replacements 0 w1] by (simp add: w2_def)
  have p2: "process_files root_dir xaml_files replacements 0 w3 =
              (Inr (length (filter (\<lambda>b. b) (outcomes root_dir xaml_files replacements w3))), w4)"
    using process_files_result[OF xaml, of replacements 0 w3] by (simp add: w4_def)
  have p3: "process_files root_dir other_files replacements 0 w5 =
              (Inr (length (filter (\<lambda>b. b) (outcomes root_dir other_files replacements w5))), w6)"
    using process_files_result[OF other, of replacements 0 w5] by (simp add: w6_def)
  have x2: "rglob src_dir ''*.xaml'' w2 = xaml_files"
    by (simp add: w2_def w1_def xaml_files_def)
  have o4: "rglob root_dir pattern w4 = rglob root_dir pattern w" for pattern
    by (simp add: w4_def w3_def w2_def w1_def)
  have "main root_dir w =
     (Inr (),
         print_all (summary
           (length (filter (\<lambda>b. b) (outcomes root_dir cs_files replacements w1)))
           (length cs_files)
           (length (filter (\<lambda>b. b) (outcomes root_dir xaml_files replacements w3)))
           (length xaml_files)
           (length (filter (\<lambda>b. b) (outcomes root_dir other_files replacements w5)))
           (length other_files)) w6)"
    unfolding main_def Let_def
    unfolding src_dir_def[symmetric] cs_files_def[symmetric] w1_def[symmetric] p1 prod.case sum.case
      w2_def[symmetric] x2 w3_def[symmetric] p2 o4 other_files_def[symmetric] w5_def[symmetric] p3
    by (rule refl)
  then show ?thesis
    unfolding Let_def src_dir_def cs_files_def w1_def w2_def xaml_files_def w3_def w4_def
      other_files_def w5_def w6_def .
qed











section \<open>The rule list on the examples of the specification\<close>

text \<open>
  C5. On the text \<open>"Nebula Terminal"\<close>, double quotes included, the rule list of
  the script gives \<open>"TermSnap"\<close>. The first four rules leave the text as it is, the
  fifth, the rule of the full name, rewrites it, and that rule stands before the
  rule of the quoted short name; the result is not \<open>"TermSnap Terminal"\<close>.
\<close>

theorem full_name_rule_fires_first:
  \<open>apply_replacements replacements ''"Nebula Terminal"'' = ''"TermSnap"''
   \<and> apply_replacements (take 4 replacements) ''"Nebula Terminal"'' = ''"Nebula Terminal"''
   \<and> apply_replacements (take 5 replacements) ''"Nebula Terminal"'' = ''"TermSnap"''
   \<and> replacements ! 4 = (''"Nebula Terminal"'', ''"TermSnap"'')
   \<and> replacements ! 6 = (''"Nebula"'', ''"TermSnap"'')
   \<and> apply_replacements replacements ''"Nebula Terminal"'' \<noteq> ''"TermSnap Terminal"''\<close>
  by code_simp

text \<open>
  C6. On the text \<open>namespace Nebula.Core { }\<close> the rule list gives
  \<open>namespace TermSnap.Core { }\<close>: the first rule, \<open>namespace Nebula\<close>, already
  gives that text, in which the literal \<open>Nebula.\<close> of the later rule no longer occurs.
\<close>

theorem namespace_example:
  "apply_replacements replacements ''namespace Nebula.Core { }'' = ''namespace TermSnap.Core { }''
   \<and> replacements ! 0 = (''namespace Nebula'', ''namespace TermSnap'')
   \<and> apply_replacements (take 1 replacements) ''namespace Nebula.Core { }''
       = ''namespace TermSnap.Core { }''
   \<and> replacements ! 9 = (''Nebula.'', ''TermSnap.'')
   \<and> sublist ''Nebula.'' ''namespace Nebula.Core { }''
   \<and> \<not> sublist ''Nebula.'' ''namespace TermSnap.Core { }''"
  by code_simp

section \<open>The claims about one file\<close>

text \<open>
  C1. For a file that can be read, with text \<open>c\<close>, the content
  \<open>replace_in_file\<close> computes is the left fold of the literal replacement over the
  rule list in its order, started from the whole of \<open>c\<close>, each rule working on what
  the rule before it left. The file is opened for reading once. The result of the
  fold is compared with \<open>c\<close>: when they are equal the function returns
  \<^verbatim>\<open>False\<close> and leaves the files alone, when they differ it opens the file
  for writing, and if that write succeeds it returns \<^verbatim>\<open>True\<close> and the file then
  reads as the result of the fold. The replacement of one rule is literal: a text
  without the search literal is returned as it is, and otherwise the leftmost
  occurrence is replaced and the rest of the text, after that occurrence, is treated
  the same way, which is how \<^verbatim>\<open>str.replace\<close> replaces all occurrences.
\<close>

theorem replace_in_file_is_fold:
  assumes "map_of (files w) p = Some f" and "file_text f = Inr c"
  shows "let final = foldl (\<lambda>acc r. str_replace (fst r) (snd r) acc) c rs in
     apply_replacements rs c = final
     \<and> io_trace (snd (replace_in_file p rs w))
         = io_trace w @ (if final \<noteq> c then [OpenRead p, OpenWrite p] else [OpenRead p])
     \<and> (final = c \<longrightarrow> fst (replace_in_file p rs w) = False
                       \<and> files (snd (replace_in_file p rs w)) = files w)
     \<and> (final \<noteq> c \<and> file_wfault f = None \<longrightarrow>
           fst (replace_in_file p rs w) = True
           \<and> fst (read_text p (snd (replace_in_file p rs w))) = Inr final)
     \<and> (\<not> sublist old t \<longrightarrow> str_replace old new t = t)
     \<and> (old \<noteq> [] \<and> \<not> sublist old (u @ butlast old) \<longrightarrow>
           str_replace old new (u @ old @ v) = u @ new @ str_replace old new v)"
proof -
  define final where "final = foldl (\<lambda>acc r. str_replace (fst r) (snd r) acc) c rs"
  have fold: "apply_replacements rs c = final"
    by (simp only: final_def apply_replacements_foldl)
  have tr: "io_trace (snd (replace_in_file p rs w))
         = io_trace w @ (if final \<noteq> c then [OpenRead p, OpenWrite p] else [OpenRead p])"
  proof (cases "final = c")
    case True
    with assms fold show ?thesis by (simp add: replace_in_file_same)
  next
    case False
    show ?thesis
    proof (cases "file_wfault f")
      case None
      with assms fold False show ?thesis by (simp add: replace_in_file_written)
    next
      case (Some a)
      then obtain e residue where "file_wfault f = Some (e, residue)" by (cases a) simp
      with assms fold False show ?thesis by (simp add: replace_in_file_write_error)
    qed
  qed
  have same: "fst (replace_in_file p rs w) = False \<and> files (snd (replace_in_file p rs w)) = files w"
    if "final = c"
    using that assms fold by (simp add: replace_in_file_same)
  have diff: "fst (replace_in_file p rs w) = True
           \<and> fst (read_text p (snd (replace_in_file p rs w))) = Inr final"
    if "final \<noteq> c" "file_wfault f = None"
    using that assms fold by (simp add: replace_in_file_written read_text_def update_conv')
  have absent: "str_replace old new t = t" if "\<not> sublist old t"
    using that by (rule str_replace_absent)
  have leftmost: "str_replace old new (u @ old @ v) = u @ new @ str_replace old new v"
    if "old \<noteq> []" "\<not> sublist old (u @ butlast old)"
    using that by (rule str_replace_leftmost)
  from fold tr same diff absent leftmost show ?thesis
    unfolding Let_def final_def[symmetric] by blast
qed

theorem replace_in_file_is_fold_witness:
  "fst (replace_in_file [''proj'', ''src'', ''a.cs''] replacements example_world) = True
   \<and> fst (read_text [''proj'', ''src'', ''a.cs'']
           (snd (replace_in_file [''proj'', ''src'', ''a.cs''] replacements example_world)))
       = Inr ''namespace TermSnap.Core { }''
   \<and> io_trace (snd (replace_in_file [''proj'', ''src'', ''a.cs''] replacements example_world))
       = [OpenRead [''proj'', ''src'', ''a.cs''], OpenWrite [''proj'', ''src'', ''a.cs'']]"
proof -
  have h1: "map_of (files example_world) [''proj'', ''src'', ''a.cs'']
              = Some (File (Inr ''namespace Nebula.Core { }'') None)"
    by (simp add: example_world_def)
  have h2: "file_text (File (Inr ''namespace Nebula.Core { }'') None)
              = Inr ''namespace Nebula.Core { }''"
    by simp
  have ev: "foldl (\<lambda>acc r. str_replace (fst r) (snd r) acc) ''namespace Nebula.Core { }'' replacements
              = ''namespace TermSnap.Core { }''"
    by code_simp
  have tr: "io_trace example_world = []" by (simp add: example_world_def)
  from replace_in_file_is_fold[OF h1 h2, where rs = replacements]
  show ?thesis by (simp add: Let_def ev tr)
qed

section \<open>Files without a search literal, and files that cannot be read\<close>

text \<open>
  C3. For a file that can be read and whose text contains none of the search
  literals of the rule list, the text after the rules is the text read,
  \<open>replace_in_file\<close> returns \<^verbatim>\<open>False\<close>, and the world it leaves differs from the
  one it found only by the record that the file was opened for reading: no file has
  changed, nothing was opened for writing and nothing was printed.
\<close>

theorem no_literal_no_write:
  assumes "map_of (files w) p = Some f" and "file_text f = Inr c"
    and "\<forall>r\<in>set rs. \<not> sublist (fst r) c"
  shows "apply_replacements rs c = c
     \<and> replace_in_file p rs w = (False, w\<lparr>io_trace := io_trace w @ [OpenRead p]\<rparr>)
     \<and> files (snd (replace_in_file p rs w)) = files w
     \<and> stdout (snd (replace_in_file p rs w)) = stdout w
     \<and> io_trace (snd (replace_in_file p rs w)) = io_trace w @ [OpenRead p]"
proof -
  from assms(3) have same: "apply_replacements rs c = c"
    by (rule apply_replacements_absent)
  with assms(1,2) have "replace_in_file p rs w = (False, w\<lparr>io_trace := io_trace w @ [OpenRead p]\<rparr>)"
    by (rule replace_in_file_same)
  with same show ?thesis by simp
qed

theorem no_literal_no_write_witness:
  "apply_replacements replacements ''using System;'' = ''using System;''
   \<and> replace_in_file [''proj'', ''src'', ''c.cs''] replacements example_world
       = (False, example_world\<lparr>io_trace := [OpenRead [''proj'', ''src'', ''c.cs'']]\<rparr>)"
proof -
  have h1: "map_of (files example_world) [''proj'', ''src'', ''c.cs'']
              = Some (File (Inr ''using System;'') None)"
    by (simp add: example_world_def)
  have h2: "file_text (File (Inr ''using System;'') None) = Inr ''using System;''"
    by simp
  have h3: "\<forall>r\<in>set replacements. \<not> sublist (fst r) ''using System;''"
    by code_simp
  have tr: "io_trace example_world = []" by (simp add: example_world_def)
  from no_literal_no_write[OF h1 h2 h3] show ?thesis by (simp add: tr)
qed

text \<open>
  C10. When opening, reading or decoding the file raises, \<open>replace_in_file\<close>
  leaves every file as it was: it has opened the file for reading only, printed the
  error line and returned \<^verbatim>\<open>False\<close>. In general the file is opened for writing
  only after it was read with success and the text after the rules differs from the
  text read.
\<close>

theorem read_error_leaves_file:
  "(fst (read_text p w) = Inl e \<longrightarrow>
      replace_in_file p rs w =
        (False, w\<lparr>stdout := stdout w @ [''Error processing '' @ str_path p @ '': '' @ exc_str e],
                  io_trace := io_trace w @ [OpenRead p]\<rparr>)
      \<and> files (snd (replace_in_file p rs w)) = files w)
   \<and> (io_trace (snd (replace_in_file p rs w)) = io_trace w @ [OpenRead p]
      \<or> (\<exists>c. fst (read_text p w) = Inr c \<and> apply_replacements rs c \<noteq> c
              \<and> io_trace (snd (replace_in_file p rs w)) = io_trace w @ [OpenRead p, OpenWrite p]))"
proof -
  have a: "replace_in_file p rs w =
        (False, w\<lparr>stdout := stdout w @ [''Error processing '' @ str_path p @ '': '' @ exc_str e],
                  io_trace := io_trace w @ [OpenRead p]\<rparr>)
      \<and> files (snd (replace_in_file p rs w)) = files w"
    if "fst (read_text p w) = Inl e"
    using that
    by (cases rule: file_state_cases[where w=w and p=p and rs=rs])
       (auto simp: read_text_def replace_in_file_missing replace_in_file_unreadable)
  have b: "io_trace (snd (replace_in_file p rs w)) = io_trace w @ [OpenRead p]
      \<or> (\<exists>c. fst (read_text p w) = Inr c \<and> apply_replacements rs c \<noteq> c
              \<and> io_trace (snd (replace_in_file p rs w)) = io_trace w @ [OpenRead p, OpenWrite p])"
    by (cases rule: file_state_cases[where w=w and p=p and rs=rs])
       (simp_all add: read_text_def replace_in_file_cases)
  from a b show ?thesis by blast
qed

theorem read_error_leaves_file_witness:
  "fst (read_text [''proj'', ''src'', ''b.cs''] example_world)
     = Inl (UnicodeDecodeError ''invalid start byte'')
   \<and> files (snd (replace_in_file [''proj'', ''src'', ''b.cs''] replacements example_world))
       = files example_world
   \<and> io_trace (snd (replace_in_file [''proj'', ''src'', ''b.cs''] replacements example_world))
       = [OpenRead [''proj'', ''src'', ''b.cs'']]"
proof -
  have h: "fst (read_text [''proj'', ''src'', ''b.cs''] example_world)
     = Inl (UnicodeDecodeError ''invalid start byte'')"
    by (simp add: read_text_def example_world_def)
  have tr: "io_trace example_world = []" by (simp add: example_world_def)
  from read_error_leaves_file[of "[''proj'', ''src'', ''b.cs'']" example_world
      "UnicodeDecodeError ''invalid start byte''" replacements] h
  show ?thesis by (simp add: tr)
qed

section \<open>Applying the rule list twice\<close>




section \<open>The claims about the whole run\<close>

text \<open>The run on the example project, evaluated.\<close>

lemma example_run:
  "main example_root example_world =
     (Inr (),
      \<lparr>files =
        [([''proj'', ''readme.md''], File (Inr ''// TermSnap'') None),
         ([''proj'', ''notes.txt''], File (Inr ''// Nebula'') None),
         ([''proj'', ''src'', ''a.cs''], File (Inr ''namespace TermSnap.Core { }'') None),
         ([''proj'', ''src'', ''b.cs''],
            File (Inl (UnicodeDecodeError ''invalid start byte'')) None),
         ([''proj'', ''src'', ''c.cs''], File (Inr ''using System;'') None),
         ([''proj'', ''src'', ''ui'', ''m.xaml''],
            File (Inr ''clr-namespace:Nebula.Views'')
                 (Some (PermissionError ''[Errno 13] Permission denied'',
                        Inr ''clr-namespace:Nebula.Views'')))],
       stdout =
        [''Processing 3 C# files...'',
         ''  [OK] src/a.cs'',
         ''Error processing /proj/src/b.cs: invalid start byte'',
         CHR 0x0A # ''Processing 1 XAML files...'',
         ''Error processing /proj/src/ui/m.xaml: [Errno 13] Permission denied'',
         CHR 0x0A # ''Processing 1 other files...'',
         ''  [OK] readme.md'',
         CHR 0x0A # replicate 60 CHR ''='',
         ''[DONE] Nebula -> TermSnap conversion complete!'',
         replicate 60 CHR ''='',
         ''   C# files changed: 1/3'',
         ''   XAML files changed: 0/1'',
         ''   Other files changed: 1/1'',
         ''   Total: 2 files''],
       io_trace =
        [OpenRead [''proj'', ''src'', ''a.cs''],
         OpenWrite [''proj'', ''src'', ''a.cs''],
         OpenRead [''proj'', ''src'', ''b.cs''],
         OpenRead [''proj'', ''src'', ''c.cs''],
         OpenRead [''proj'', ''src'', ''ui'', ''m.xaml''],
         OpenWrite [''proj'', ''src'', ''ui'', ''m.xaml''],
         OpenRead [''proj'', ''readme.md''],
         OpenWrite [''proj'', ''readme.md'']]\<rparr>)"
  by code_simp







text \<open>
  C8. In each of the three passes, in the order C#, XAML, other, the count of
  changed files that the summary prints is the number of \<^verbatim>\<open>True\<close> among the values
  \<open>replace_in_file\<close> returned for the files of that pass, the total it prints after
  the slash is the number of files discovered for the pass, and the last line
  prints the sum of the three counts.
\<close>

theorem summary_accounting:
  "let src_dir = root_dir @ [''src''];
       cs_files = rglob src_dir ''*.cs'' w;
       w1 = print (''Processing '' @ decimal (length cs_files) @ '' C# files...'') w;
       cs_changed = length (filter (\<lambda>changed. changed) (outcomes root_dir cs_files replacements w1));
       w2 = snd (process_files root_dir cs_files replacements 0 w1);
       xaml_files = rglob src_dir ''*.xaml'' w2;
       w3 = print (CHR 0x0A # ''Processing '' @ decimal (length xaml_files) @ '' XAML files...'') w2;
       xaml_changed = length (filter (\<lambda>changed. changed) (outcomes root_dir xaml_files replacements w3));
       w4 = snd (process_files root_dir xaml_files replacements 0 w3);
       other_files = concat (map (\<lambda>pattern. rglob root_dir pattern w4)
                                 [''*.json'', ''*.config'', ''*.xml'', ''*.md'']);
       w5 = print (CHR 0x0A # ''Processing '' @ decimal (length other_files) @ '' other files...'') w4;
       other_changed = length (filter (\<lambda>changed. changed) (outcomes root_dir other_files replacements w5));
       w6 = snd (process_files root_dir other_files replacements 0 w5)
   in fst (main root_dir w) = Inr ()
      \<and> stdout (snd (main root_dir w)) = stdout w6 @
          [CHR 0x0A # replicate 60 CHR ''='',
           ''[DONE] Nebula -> TermSnap conversion complete!'',
           replicate 60 CHR ''='',
           ''   C# files changed: '' @ decimal cs_changed @ ''/'' @ decimal (length cs_files),
           ''   XAML files changed: '' @ decimal xaml_changed @ ''/'' @ decimal (length xaml_files),
           ''   Other files changed: '' @ decimal other_changed @ ''/'' @ decimal (length other_files),
           ''   Total: '' @ decimal (cs_changed + xaml_changed + other_changed) @ '' files'']"
  unfolding main_run Let_def fst_conv snd_conv stdout_print_all summary_def
    rglob_process_files rglob_print
  by simp



end
